theory Spec2Isabelle
  imports Main "HOL-Library.Multiset"
begin

section \<open>The JSX props ordering rule (src/rules/order.js)\<close>

text \<open>
  A shallow embedding of the ESLint rule of src/rules/order.js (the current version of the
  rule, lines 1 to 412 of the file). Syntax tree nodes are records carrying the fields the
  rule reads. The \<open>type\<close> of a node is the string the parser puts there, as the rule compares
  it. A node also carries its \<open>range\<close>, the handle through which the host's
  \<open>sourceCode.getText\<close> finds the node's text; two nodes are the same object
  (JavaScript's \<open>===\<close>) when the records are equal, so distinct nodes of one tree differ
  at least in their range.

  Strings are lists of 8-bit characters: \<open>length\<close> is JavaScript's \<open>.length\<close> for names
  made of code units below 256.
\<close>

subsection \<open>Syntax tree nodes\<close>

type_synonym span = "nat \<times> nat"

text \<open>An expression node: \<open>expr.type\<close> and, for an identifier, \<open>expr.name\<close>.\<close>

record expr_node =
  expr_type :: string
  expr_name :: string

text \<open>
  The value of an attribute: a \<open>Literal\<close>, a \<open>JSXExpressionContainer\<close> holding an
  expression, or another node (an element or a fragment).
\<close>

record value_node =
  value_type :: string
  value_expression :: "expr_node option"
  value_range :: span

text \<open>
  \<open>prop.name\<close> is a \<open>JSXIdentifier\<close>, whose \<open>name\<close> is a string, or a
  \<open>JSXNamespacedName\<close> (as in \<open>xlink:href\<close>), whose \<open>name\<close> is itself a node.
\<close>

datatype name_node = JSXIdentifier string | JSXNamespacedName string string

text \<open>
  An attribute of an opening element: \<open>attr_value = None\<close> is JavaScript's \<open>null\<close>
  (the boolean shorthand); a spread attribute has neither name nor value.
\<close>

record attribute =
  attr_type :: string
  attr_name :: "name_node option"
  attr_value :: "value_node option"
  attr_range :: span

record opening_element =
  el_name_range :: span
  el_attributes :: "attribute list option"
  el_selfClosing :: bool
  el_range :: span

subsection \<open>The rule's context\<close>

text \<open>
  \<open>context.options\<close> is the list of option objects of the rule's configuration; a field
  the configuration does not give is \<open>None\<close> (\<open>undefined\<close>). \<open>getText\<close> is the host's
  \<open>sourceCode.getText\<close>, with \<open>None\<close> for a call that throws. \<open>localeCompare\<close> is the
  collation of the runtime, \<open>String.prototype.localeCompare\<close>.
\<close>

record rule_options =
  opt_reactPropsFirst :: "bool option"
  opt_reactPropsList :: "string list option"

record rule_context =
  options :: "rule_options list"
  getText :: "span \<Rightarrow> string option"
  localeCompare :: "string \<Rightarrow> string \<Rightarrow> int"

text \<open>\<open>const options = context.options[0] || {}\<close>\<close>

definition options0 :: "rule_context \<Rightarrow> rule_options" where
  "options0 ctx =
     (case options ctx of
        [] \<Rightarrow> \<lparr>opt_reactPropsFirst = None, opt_reactPropsList = None\<rparr>
      | opts # _ \<Rightarrow> opts)"

definition reactPropsList :: "rule_context \<Rightarrow> string list" where
  "reactPropsList ctx =
     (case opt_reactPropsList (options0 ctx) of
        Some l \<Rightarrow> l
      | None \<Rightarrow>
          [''key'', ''ref'', ''dangerouslySetInnerHTML'', ''children'',
           ''value'', ''defaultValue'', ''checked'', ''defaultChecked'',
           ''className'', ''style'', ''id'', ''name''])"

definition shouldPrioritizeReactProps :: "rule_context \<Rightarrow> bool" where
  "shouldPrioritizeReactProps ctx = (opt_reactPropsFirst (options0 ctx) \<noteq> Some False)"

subsection \<open>Categories and naming patterns\<close>

datatype prop_category =
  REACT_RESERVED | SHORTHAND | STRING | VARIABLE | FUNCTION
  | MULTILINE_OBJECT | MULTILINE_FUNCTION | UNKNOWN

fun PROP_CATEGORIES :: "prop_category \<Rightarrow> int" where
  "PROP_CATEGORIES REACT_RESERVED = -1"
| "PROP_CATEGORIES SHORTHAND = 0"
| "PROP_CATEGORIES STRING = 1"
| "PROP_CATEGORIES VARIABLE = 2"
| "PROP_CATEGORIES FUNCTION = 3"
| "PROP_CATEGORIES MULTILINE_OBJECT = 4"
| "PROP_CATEGORIES MULTILINE_FUNCTION = 5"
| "PROP_CATEGORIES UNKNOWN = 6"

definition newline :: char where
  "newline = CHR 0x0A"

definition ends_with :: "string \<Rightarrow> string \<Rightarrow> bool" where
  "ends_with p s = (length p \<le> length s \<and> drop (length s - length p) s = p)"

definition starts_with :: "string \<Rightarrow> string \<Rightarrow> bool" where
  "starts_with p s = (take (length p) s = p)"

definition is_upper :: "char \<Rightarrow> bool" where
  "is_upper c = (c \<in> set ''ABCDEFGHIJKLMNOPQRSTUVWXYZ'')"

text \<open>\<open>^p[A-Z]\<close>: the prefix \<open>p\<close> followed by an upper-case ASCII letter.\<close>

definition starts_with_upper :: "string \<Rightarrow> string \<Rightarrow> bool" where
  "starts_with_upper p s =
     (starts_with p s \<and> (case drop (length p) s of [] \<Rightarrow> False | c # _ \<Rightarrow> is_upper c))"

text \<open>\<open>/Handler$|Callback$|^on[A-Z]|^handle[A-Z]|^toggle[A-Z]/\<close>\<close>

definition PATTERNS_FUNCTION :: "string \<Rightarrow> bool" where
  "PATTERNS_FUNCTION s =
     (ends_with ''Handler'' s \<or> ends_with ''Callback'' s \<or> starts_with_upper ''on'' s
      \<or> starts_with_upper ''handle'' s \<or> starts_with_upper ''toggle'' s)"

text \<open>\<open>/Config$|Options$|Props$|Style$|Data$|^obj|^data/\<close>\<close>

definition PATTERNS_OBJECT :: "string \<Rightarrow> bool" where
  "PATTERNS_OBJECT s =
     (ends_with ''Config'' s \<or> ends_with ''Options'' s \<or> ends_with ''Props'' s
      \<or> ends_with ''Style'' s \<or> ends_with ''Data'' s \<or> starts_with ''obj'' s
      \<or> starts_with ''data'' s)"

text \<open>\<open>expr\<close> may be \<open>null\<close>, which is falsy.\<close>

definition isFunction :: "expr_node option \<Rightarrow> bool" where
  "isFunction e =
     (case e of
        None \<Rightarrow> False
      | Some expr \<Rightarrow>
          expr_type expr = ''ArrowFunctionExpression''
          \<or> expr_type expr = ''FunctionExpression''
          \<or> (expr_type expr = ''Identifier'' \<and> PATTERNS_FUNCTION (expr_name expr)))"

definition isObject :: "expr_node option \<Rightarrow> bool" where
  "isObject e =
     (case e of
        None \<Rightarrow> False
      | Some expr \<Rightarrow>
          expr_type expr = ''ObjectExpression''
          \<or> (expr_type expr = ''Identifier'' \<and> PATTERNS_OBJECT (expr_name expr)))"

subsection \<open>getPropCategory\<close>

text \<open>
  The name the rule works with: \<open>prop.name.name\<close> when the node is a \<open>JSXAttribute\<close>
  whose name is present and is a string, as the guard of \<open>getPropCategory\<close> (and the
  same test in \<open>compareProps\<close>) asks.
\<close>

definition propName :: "attribute \<Rightarrow> string option" where
  "propName prop =
     (if attr_type prop \<noteq> ''JSXAttribute'' then None
      else case attr_name prop of
             Some (JSXIdentifier n) \<Rightarrow> Some n
           | _ \<Rightarrow> None)"

text \<open>The body of the \<open>try\<close> block once the text of the value is known.\<close>

definition categoryOfValue :: "string \<Rightarrow> value_node \<Rightarrow> string \<Rightarrow> prop_category" where
  "categoryOfValue name v propValueText =
     (if newline \<in> set propValueText then
        (if value_type v = ''JSXExpressionContainer'' \<and> isFunction (value_expression v)
           then MULTILINE_FUNCTION
         else if value_type v = ''JSXExpressionContainer'' \<and> isObject (value_expression v)
           then MULTILINE_OBJECT
         else if PATTERNS_FUNCTION name then MULTILINE_FUNCTION
         else if PATTERNS_OBJECT name then MULTILINE_OBJECT
         else MULTILINE_OBJECT)
      else if value_type v = ''Literal''
              \<or> (value_type v = ''JSXExpressionContainer''
                  \<and> (case value_expression v of
                        None \<Rightarrow> False
                      | Some expr \<Rightarrow> expr_type expr = ''Literal''))
        then STRING
      else if value_type v = ''JSXExpressionContainer'' \<and> isFunction (value_expression v)
        then FUNCTION
      else if value_type v = ''JSXExpressionContainer'' \<and> PATTERNS_FUNCTION name
        then FUNCTION
      else if value_type v = ''JSXExpressionContainer'' \<and> PATTERNS_OBJECT name
        then VARIABLE
      else VARIABLE)"

definition getPropCategory :: "rule_context \<Rightarrow> attribute \<Rightarrow> prop_category" where
  "getPropCategory ctx prop =
     (case propName prop of
        None \<Rightarrow> UNKNOWN
      | Some name \<Rightarrow>
          if shouldPrioritizeReactProps ctx \<and> name \<in> set (reactPropsList ctx)
            then REACT_RESERVED
          else (case attr_value prop of
                  None \<Rightarrow> SHORTHAND
                | Some v \<Rightarrow>
                    (case getText ctx (value_range v) of
                       None \<Rightarrow> UNKNOWN
                     | Some propValueText \<Rightarrow> categoryOfValue name v propValueText)))"

subsection \<open>compareProps\<close>

text \<open>\<open>Array.prototype.indexOf\<close>: the first index of the element, or \<open>-1\<close>.\<close>

fun indexOf :: "string list \<Rightarrow> string \<Rightarrow> int" where
  "indexOf [] x = -1"
| "indexOf (y # ys) x =
     (if y = x then 0 else (let i = indexOf ys x in if i = -1 then -1 else i + 1))"

text \<open>\<open>text.split("\n")\<close>: the pieces between the newlines, at least one.\<close>

fun split_newline :: "string \<Rightarrow> string list" where
  "split_newline [] = [[]]"
| "split_newline (c # cs) =
     (if c = newline then [] # split_newline cs
      else (case split_newline cs of
              [] \<Rightarrow> [[c]]
            | l # ls \<Rightarrow> (c # l) # ls))"

text \<open>
  \<open>sourceCode.getText(prop.value).split("\n").length\<close>, or \<open>None\<close> when \<open>getText\<close>
  throws. An attribute of a multiline category has a value.
\<close>

definition lineCount :: "rule_context \<Rightarrow> attribute \<Rightarrow> int option" where
  "lineCount ctx prop =
     (case attr_value prop of
        None \<Rightarrow> None
      | Some v \<Rightarrow>
          (case getText ctx (value_range v) of
             None \<Rightarrow> None
           | Some text \<Rightarrow> Some (int (length (split_newline text)))))"

text \<open>
  The tie-break of the two multiline categories; a \<open>getText\<close> that throws is caught and
  gives 0.
\<close>

definition compareLines :: "rule_context \<Rightarrow> attribute \<Rightarrow> attribute \<Rightarrow> int" where
  "compareLines ctx propA propB =
     (case (lineCount ctx propA, lineCount ctx propB) of
        (Some linesA, Some linesB) \<Rightarrow> linesA - linesB
      | _ \<Rightarrow> 0)"

definition compareProps :: "rule_context \<Rightarrow> attribute \<Rightarrow> attribute \<Rightarrow> int" where
  "compareProps ctx propA propB =
     (let categoryA = getPropCategory ctx propA;
          categoryB = getPropCategory ctx propB
      in if categoryA = UNKNOWN \<or> categoryB = UNKNOWN then 0
         else if categoryA \<noteq> categoryB
           then PROP_CATEGORIES categoryA - PROP_CATEGORIES categoryB
         else (case (propName propA, propName propB) of
                 (Some nameA, Some nameB) \<Rightarrow>
                   (let indexA = indexOf (reactPropsList ctx) nameA;
                        indexB = indexOf (reactPropsList ctx) nameB
                    in if categoryA = REACT_RESERVED \<and> indexA \<noteq> -1 \<and> indexB \<noteq> -1
                         then indexA - indexB
                       else if categoryA = REACT_RESERVED \<and> indexA \<noteq> -1 then -1
                       else if categoryA = REACT_RESERVED \<and> indexB \<noteq> -1 then 1
                       else if length nameA \<noteq> length nameB
                         then int (length nameA) - int (length nameB)
                       else if nameA \<noteq> nameB then localeCompare ctx nameA nameB
                       else if categoryA = MULTILINE_OBJECT \<or> categoryA = MULTILINE_FUNCTION
                         then compareLines ctx propA propB
                       else 0)
               | _ \<Rightarrow> 0))"

subsection \<open>Sorting between the spread attributes\<close>

text \<open>
  \<open>Array.prototype.sort\<close> with a comparison function, as the engine the rule runs on
  (V8, under Node.js) sorts an array of fewer than 64 elements: the first run of the
  array is found, and reversed when it is a strictly descending one
  (\<open>CountAndMakeRun\<close>); then every later element is put into the sorted front of the
  array, at the place a binary search gives (\<open>BinaryInsertionSort\<close>). The comparison
  function is always called on a later element and an earlier one, in this order. The
  sort is stable. A longer array the engine cuts into several such runs, which it
  merges; the model sorts it as one run, which gives the same list when the comparison
  function is consistent.
\<close>

text \<open>
  The loop of \<open>CountAndMakeRun\<close>: how many of the elements after \<open>previousElement\<close>
  go on with the run.
\<close>

fun runRest :: "bool \<Rightarrow> ('a \<Rightarrow> 'a \<Rightarrow> int) \<Rightarrow> 'a \<Rightarrow> 'a list \<Rightarrow> nat" where
  "runRest isDescending cmp previousElement [] = 0"
| "runRest isDescending cmp previousElement (currentElement # rest) =
     (let order = cmp currentElement previousElement
      in if (if isDescending then order \<ge> 0 else order < 0) then 0
         else Suc (runRest isDescending cmp currentElement rest))"

text \<open>The array with its first run made ascending, and the length of the run.\<close>

definition countAndMakeRun :: "('a \<Rightarrow> 'a \<Rightarrow> int) \<Rightarrow> 'a list \<Rightarrow> 'a list \<times> nat" where
  "countAndMakeRun cmp xs =
     (case xs of
        elementHigh # elementLow # rest \<Rightarrow>
          (let isDescending = (cmp elementLow elementHigh < 0);
               runLength = 2 + runRest isDescending cmp elementLow rest
           in (if isDescending then rev (take runLength xs) @ drop runLength xs else xs,
               runLength))
      | _ \<Rightarrow> (xs, length xs))"

text \<open>
  The binary search of \<open>BinaryInsertionSort\<close> for the place of \<open>pivot\<close> in the sorted
  front \<open>xs\<close>; it is called with \<open>right\<close> the length of \<open>xs\<close>, so \<open>mid\<close> is an index of
  \<open>xs\<close>.
\<close>

function binarySearch :: "('a \<Rightarrow> 'a \<Rightarrow> int) \<Rightarrow> 'a \<Rightarrow> 'a list \<Rightarrow> nat \<Rightarrow> nat \<Rightarrow> nat" where
  "binarySearch cmp pivot xs left right =
     (if left < right then
        (let mid = left + (right - left) div 2
         in if cmp pivot (xs ! mid) < 0 then binarySearch cmp pivot xs left mid
            else binarySearch cmp pivot xs (mid + 1) right)
      else left)"
  by pat_completeness auto
termination
  by (relation "measure (\<lambda>(cmp, pivot, xs, left, right). right - left)") auto

declare binarySearch.simps [simp del]

fun binaryInsertionSort :: "('a \<Rightarrow> 'a \<Rightarrow> int) \<Rightarrow> 'a list \<Rightarrow> 'a list \<Rightarrow> 'a list" where
  "binaryInsertionSort cmp front [] = front"
| "binaryInsertionSort cmp front (pivot # rest) =
     (let left = binarySearch cmp pivot front 0 (length front)
      in binaryInsertionSort cmp (take left front @ pivot # drop left front) rest)"

definition array_sort :: "('a \<Rightarrow> 'a \<Rightarrow> int) \<Rightarrow> 'a list \<Rightarrow> 'a list" where
  "array_sort cmp xs =
     (if length xs < 2 then xs
      else (let (ys, runLength) = countAndMakeRun cmp xs
            in binaryInsertionSort cmp (take runLength ys) (drop runLength ys)))"

definition isSpread :: "attribute \<Rightarrow> bool" where
  "isSpread attr = (attr_type attr = ''JSXSpreadAttribute'')"

text \<open>
  The loop of \<open>groupAttributesBySpread\<close>: the attributes still to visit, \<open>currentGroup\<close>
  and \<open>groups\<close>. The attribute is pushed on the current group before the test that closes
  the group; \<open>rest = []\<close> is \<open>i === attributes.length - 1\<close>.
\<close>

fun groupLoop ::
  "attribute list \<Rightarrow> attribute list \<Rightarrow> attribute list list \<Rightarrow> attribute list list" where
  "groupLoop [] currentGroup groups = groups"
| "groupLoop (attr # rest) currentGroup groups =
     (let pushed = currentGroup @ [attr]
      in if isSpread attr \<or> rest = [] then
           (if length pushed > 0 then groupLoop rest [] (groups @ [pushed])
            else groupLoop rest pushed groups)
         else groupLoop rest pushed groups)"

definition groupAttributesBySpread :: "attribute list \<Rightarrow> attribute list list" where
  "groupAttributesBySpread attributes = groupLoop attributes [] []"

text \<open>
  The loop of \<open>sortAttributesPreservingSpreadPrecedence\<close>: the attributes still to visit,
  \<open>currentGroup\<close> and \<open>result\<close>.
\<close>

fun sortLoop ::
  "rule_context \<Rightarrow> attribute list \<Rightarrow> attribute list \<Rightarrow> attribute list \<Rightarrow> attribute list" where
  "sortLoop ctx [] currentGroup result =
     (if length currentGroup > 0 then result @ array_sort (compareProps ctx) currentGroup
      else result)"
| "sortLoop ctx (attr # rest) currentGroup result =
     (if isSpread attr then
        (if length currentGroup > 0
           then sortLoop ctx rest []
                  (result @ array_sort (compareProps ctx) currentGroup @ [attr])
         else sortLoop ctx rest currentGroup (result @ [attr]))
      else sortLoop ctx rest (currentGroup @ [attr]) result)"

definition sortAttributesPreservingSpreadPrecedence ::
  "rule_context \<Rightarrow> attribute list \<Rightarrow> attribute list" where
  "sortAttributesPreservingSpreadPrecedence ctx attributes =
     (if length attributes \<le> 1 then attributes else sortLoop ctx attributes [] [])"

subsection \<open>createFix and the rule's handler\<close>

text \<open>\<open>\s\<close> on code units below 256: tab, line feed, vertical tab, form feed, carriage
  return, space and the no-break space.\<close>

definition is_space :: "char \<Rightarrow> bool" where
  "is_space c =
     (c \<in> {CHR 0x09, CHR 0x0A, CHR 0x0B, CHR 0x0C, CHR 0x0D, CHR 0x20, CHR 0xA0})"

fun join :: "string \<Rightarrow> string list \<Rightarrow> string" where
  "join sep [] = []"
| "join sep [x] = x"
| "join sep (x # y # ys) = x @ sep @ join sep (y # ys)"

definition placeholder :: string where
  "placeholder = ''/* ESLint error: could not format attribute */''"

definition attributeText :: "rule_context \<Rightarrow> attribute \<Rightarrow> string" where
  "attributeText ctx attr =
     (case getText ctx (attr_range attr) of Some t \<Rightarrow> t | None \<Rightarrow> placeholder)"

text \<open>
  What the function \<open>createFix\<close> returns gives when the host calls it: \<open>None\<close> is
  \<open>null\<close> (no fix is applied), \<open>Some text\<close> is \<open>fixer.replaceText(node, text)\<close>.
\<close>

definition createFix ::
  "rule_context \<Rightarrow> opening_element \<Rightarrow> attribute list \<Rightarrow> attribute list \<Rightarrow> string option" where
  "createFix ctx node attributes sortedAttributes =
     (if length attributes \<noteq> length sortedAttributes then None
      else if \<not> list_all (\<lambda>attr. attr \<in> set attributes) sortedAttributes then None
      else (case getText ctx (el_name_range node) of
              None \<Rightarrow> None
            | Some tagName \<Rightarrow>
                (case getText ctx (el_range node) of
                   None \<Rightarrow> None
                 | Some nodeText \<Rightarrow>
                     (let indent = takeWhile is_space nodeText;
                          attrIndent = indent @ ''  '';
                          sortedAttributesText =
                            join ([newline] @ attrIndent)
                              (map (attributeText ctx) sortedAttributes)
                      in Some (''<'' @ tagName @ [newline] @ attrIndent
                               @ sortedAttributesText
                               @ (if el_selfClosing node then '' />'' else ''>''))))))"

fun equivalentLoop :: "attribute list \<Rightarrow> attribute list \<Rightarrow> bool" where
  "equivalentLoop (a # as) (b # bs) =
     (if attr_type a \<noteq> attr_type b then False
      else if a \<noteq> b then False
      else equivalentLoop as bs)"
| "equivalentLoop _ _ = True"

definition areAttributesEquivalent :: "attribute list \<Rightarrow> attribute list \<Rightarrow> bool" where
  "areAttributesEquivalent attrsA attrsB =
     (if length attrsA \<noteq> length attrsB then False else equivalentLoop attrsA attrsB)"

definition allPreserved :: "attribute list \<Rightarrow> attribute list \<Rightarrow> bool" where
  "allPreserved attributes sortedAttributes =
     (length attributes = length sortedAttributes
      \<and> list_all (\<lambda>attr. attr \<in> set sortedAttributes) attributes)"

datatype report =
  ReportWithFix string "string option"
  | ReportWithoutFix string

definition message_fix :: string where
  "message_fix =
     ''JSX props should be sorted by type and length while preserving spread operator precedence''"

definition message_nofix :: string where
  "message_nofix =
     ''JSX props should be sorted by type and length (automatic fix unavailable to preserve all props)''"

text \<open>
  The handler from the test \<open>isSorted\<close> on (lines 383 to 404), with the sorted list it
  works on as an argument; \<open>None\<close> is no report.
\<close>

definition reportUnlessSorted ::
  "rule_context \<Rightarrow> opening_element \<Rightarrow> attribute list \<Rightarrow> attribute list \<Rightarrow> report option" where
  "reportUnlessSorted ctx node attributes sortedAttributes =
     (if areAttributesEquivalent attributes sortedAttributes then None
      else if allPreserved attributes sortedAttributes
        then Some (ReportWithFix message_fix
                     (createFix ctx node attributes sortedAttributes))
      else Some (ReportWithoutFix message_nofix))"

definition JSXOpeningElement :: "rule_context \<Rightarrow> opening_element \<Rightarrow> report option" where
  "JSXOpeningElement ctx node =
     (case el_attributes node of
        None \<Rightarrow> None
      | Some attributes \<Rightarrow>
          if length attributes \<le> 1 then None
          else reportUnlessSorted ctx node attributes
                 (sortAttributesPreservingSpreadPrecedence ctx attributes))"

subsection \<open>Source files for the worked examples\<close>

text \<open>
  \<open>sourceCode.getText(node)\<close> of a file with the given text is the text between the two
  offsets of \<open>node.range\<close>.
\<close>

definition sliceText :: "string \<Rightarrow> span \<Rightarrow> string option" where
  "sliceText text r = Some (take (snd r - fst r) (drop (fst r) text))"

text \<open>
  A collation for the examples: the comparison of the code units, which orders two
  names of lower-case ASCII letters as the root collation of \<open>localeCompare\<close> does.
\<close>

fun codeUnitCompare :: "string \<Rightarrow> string \<Rightarrow> int" where
  "codeUnitCompare [] [] = 0"
| "codeUnitCompare [] (y # ys) = -1"
| "codeUnitCompare (x # xs) [] = 1"
| "codeUnitCompare (x # xs) (y # ys) =
     (if x = y then codeUnitCompare xs ys
      else if (of_char x :: nat) < of_char y then -1 else 1)"

definition fileContext :: "rule_options list \<Rightarrow> string \<Rightarrow> rule_context" where
  "fileContext opts text =
     \<lparr>options = opts, getText = sliceText text, localeCompare = codeUnitCompare\<rparr>"

text \<open>
  The element of the README's example, with the eight attributes of the specification's
  example.
\<close>

definition readme_source :: string where
  \<open>readme_source =
     ''<Component\<newline>''
     @ ''  size="xs"\<newline>''
     @ ''  key="test"\<newline>''
     @ ''  asChild\<newline>''
     @ ''  buttonText="Click here!"\<newline>''
     @ ''  className="rounded-md"\<newline>''
     @ ''  onClick={handleClick}\<newline>''
     @ ''  user={userData}\<newline>''
     @ ''  onBlur={(event) => {\<newline>''
     @ ''    const value = event.target.value;\<newline>''
     @ ''    setValue(value);\<newline>''
     @ ''  }}\<newline>''
     @ ''/>''\<close>

definition readme_size :: attribute where
  \<open>readme_size =
     \<lparr>attr_type = ''JSXAttribute'', attr_name = Some (JSXIdentifier ''size''),
       attr_value = Some \<lparr>value_type = ''Literal'',
                         value_expression = None,
                         value_range = (18, 22)\<rparr>,
       attr_range = (13, 22)\<rparr>\<close>

definition readme_key :: attribute where
  \<open>readme_key =
     \<lparr>attr_type = ''JSXAttribute'', attr_name = Some (JSXIdentifier ''key''),
       attr_value = Some \<lparr>value_type = ''Literal'',
                         value_expression = None,
                         value_range = (29, 35)\<rparr>,
       attr_range = (25, 35)\<rparr>\<close>

definition readme_asChild :: attribute where
  \<open>readme_asChild =
     \<lparr>attr_type = ''JSXAttribute'', attr_name = Some (JSXIdentifier ''asChild''),
       attr_value = None,
       attr_range = (38, 45)\<rparr>\<close>

definition readme_buttonText :: attribute where
  \<open>readme_buttonText =
     \<lparr>attr_type = ''JSXAttribute'', attr_name = Some (JSXIdentifier ''buttonText''),
       attr_value = Some \<lparr>value_type = ''Literal'',
                         value_expression = None,
                         value_range = (59, 72)\<rparr>,
       attr_range = (48, 72)\<rparr>\<close>

definition readme_className :: attribute where
  \<open>readme_className =
     \<lparr>attr_type = ''JSXAttribute'', attr_name = Some (JSXIdentifier ''className''),
       attr_value = Some \<lparr>value_type = ''Literal'',
                         value_expression = None,
                         value_range = (85, 97)\<rparr>,
       attr_range = (75, 97)\<rparr>\<close>

definition readme_onClick :: attribute where
  \<open>readme_onClick =
     \<lparr>attr_type = ''JSXAttribute'', attr_name = Some (JSXIdentifier ''onClick''),
       attr_value = Some \<lparr>value_type = ''JSXExpressionContainer'',
                         value_expression = Some \<lparr>expr_type = ''Identifier'', expr_name = ''handleClick''\<rparr>,
                         value_range = (108, 121)\<rparr>,
       attr_range = (100, 121)\<rparr>\<close>

definition readme_user :: attribute where
  \<open>readme_user =
     \<lparr>attr_type = ''JSXAttribute'', attr_name = Some (JSXIdentifier ''user''),
       attr_value = Some \<lparr>value_type = ''JSXExpressionContainer'',
                         value_expression = Some \<lparr>expr_type = ''Identifier'', expr_name = ''userData''\<rparr>,
                         value_range = (129, 139)\<rparr>,
       attr_range = (124, 139)\<rparr>\<close>

definition readme_onBlur :: attribute where
  \<open>readme_onBlur =
     \<lparr>attr_type = ''JSXAttribute'', attr_name = Some (JSXIdentifier ''onBlur''),
       attr_value = Some \<lparr>value_type = ''JSXExpressionContainer'',
                         value_expression = Some \<lparr>expr_type = ''ArrowFunctionExpression'', expr_name = ''''\<rparr>,
                         value_range = (149, 226)\<rparr>,
       attr_range = (142, 226)\<rparr>\<close>

definition readme_attributes :: "attribute list" where
  "readme_attributes =
     [readme_size, readme_key, readme_asChild, readme_buttonText, readme_className, readme_onClick, readme_user, readme_onBlur]"

definition readme_element :: opening_element where
  "readme_element =
     \<lparr>el_name_range = (1, 10), el_attributes = Some readme_attributes,
      el_selfClosing = True, el_range = (0, 229)\<rparr>"

text \<open>
  The options object when the configuration gives \<open>{}\<close> and the host fills in the
  defaults of \<open>meta.schema\<close> (lines 17 to 29).
\<close>

definition schema_defaults :: rule_options where
  "schema_defaults =
     \<lparr>opt_reactPropsFirst = Some True,
      opt_reactPropsList = Some [''key'', ''ref'', ''dangerouslySetInnerHTML'']\<rparr>"

text \<open>An element indented by four spaces, with a spread attribute in the middle.\<close>

definition foo_source :: string where
  \<open>foo_source =
     ''<div>\<newline>''
     @ ''    <Foo b a {...rest} d c />\<newline>''
     @ ''</div>''\<close>

definition foo_b :: attribute where
  \<open>foo_b =
     \<lparr>attr_type = ''JSXAttribute'', attr_name = Some (JSXIdentifier ''b''),
       attr_value = None,
       attr_range = (15, 16)\<rparr>\<close>

definition foo_a :: attribute where
  \<open>foo_a =
     \<lparr>attr_type = ''JSXAttribute'', attr_name = Some (JSXIdentifier ''a''),
       attr_value = None,
       attr_range = (17, 18)\<rparr>\<close>

definition foo_rest :: attribute where
  \<open>foo_rest =
     \<lparr>attr_type = ''JSXSpreadAttribute'', attr_name = None, attr_value = None,
       attr_range = (19, 28)\<rparr>\<close>

definition foo_d :: attribute where
  \<open>foo_d =
     \<lparr>attr_type = ''JSXAttribute'', attr_name = Some (JSXIdentifier ''d''),
       attr_value = None,
       attr_range = (29, 30)\<rparr>\<close>

definition foo_c :: attribute where
  \<open>foo_c =
     \<lparr>attr_type = ''JSXAttribute'', attr_name = Some (JSXIdentifier ''c''),
       attr_value = None,
       attr_range = (31, 32)\<rparr>\<close>

definition foo_attributes :: "attribute list" where
  "foo_attributes =
     [foo_b, foo_a, foo_rest, foo_d, foo_c]"

definition foo_element :: opening_element where
  "foo_element =
     \<lparr>el_name_range = (11, 14), el_attributes = Some foo_attributes,
      el_selfClosing = True, el_range = (10, 35)\<rparr>"

definition foo_context :: rule_context where
  "foo_context = fileContext [] foo_source"

definition foo_fixed :: string where
  \<open>foo_fixed =
     ''<Foo\<newline>''
     @ ''  a\<newline>''
     @ ''  b\<newline>''
     @ ''  {...rest}\<newline>''
     @ ''  c\<newline>''
     @ ''  d />''\<close>

text \<open>Two multiline object literals under names of equal length.\<close>

definition box_source :: string where
  \<open>box_source =
     ''<Box\<newline>''
     @ ''  sizes={{\<newline>''
     @ ''    sm: 1,\<newline>''
     @ ''    md: 2,\<newline>''
     @ ''  }}\<newline>''
     @ ''  theme={{\<newline>''
     @ ''    dark: true,\<newline>''
     @ ''  }}\<newline>''
     @ ''/>''\<close>

definition box_sizes :: attribute where
  \<open>box_sizes =
     \<lparr>attr_type = ''JSXAttribute'', attr_name = Some (JSXIdentifier ''sizes''),
       attr_value = Some \<lparr>value_type = ''JSXExpressionContainer'',
                         value_expression = Some \<lparr>expr_type = ''ObjectExpression'', expr_name = ''''\<rparr>,
                         value_range = (13, 42)\<rparr>,
       attr_range = (7, 42)\<rparr>\<close>

definition box_theme :: attribute where
  \<open>box_theme =
     \<lparr>attr_type = ''JSXAttribute'', attr_name = Some (JSXIdentifier ''theme''),
       attr_value = Some \<lparr>value_type = ''JSXExpressionContainer'',
                         value_expression = Some \<lparr>expr_type = ''ObjectExpression'', expr_name = ''''\<rparr>,
                         value_range = (51, 74)\<rparr>,
       attr_range = (45, 74)\<rparr>\<close>

definition box_attributes :: "attribute list" where
  "box_attributes =
     [box_sizes, box_theme]"

definition box_element :: opening_element where
  "box_element =
     \<lparr>el_name_range = (1, 4), el_attributes = Some box_attributes,
      el_selfClosing = True, el_range = (0, 77)\<rparr>"

definition box_context :: rule_context where
  "box_context = fileContext [] box_source"

text \<open>The same name twice, both values multiline object literals.\<close>

definition chart_source :: string where
  \<open>chart_source =
     ''<Chart\<newline>''
     @ ''  data={{\<newline>''
     @ ''    x: 1,\<newline>''
     @ ''    y: 2,\<newline>''
     @ ''  }}\<newline>''
     @ ''  data={{\<newline>''
     @ ''    x: 3,\<newline>''
     @ ''  }}\<newline>''
     @ ''/>''\<close>

definition chart_data1 :: attribute where
  \<open>chart_data1 =
     \<lparr>attr_type = ''JSXAttribute'', attr_name = Some (JSXIdentifier ''data''),
       attr_value = Some \<lparr>value_type = ''JSXExpressionContainer'',
                         value_expression = Some \<lparr>expr_type = ''ObjectExpression'', expr_name = ''''\<rparr>,
                         value_range = (14, 41)\<rparr>,
       attr_range = (9, 41)\<rparr>\<close>

definition chart_data2 :: attribute where
  \<open>chart_data2 =
     \<lparr>attr_type = ''JSXAttribute'', attr_name = Some (JSXIdentifier ''data''),
       attr_value = Some \<lparr>value_type = ''JSXExpressionContainer'',
                         value_expression = Some \<lparr>expr_type = ''ObjectExpression'', expr_name = ''''\<rparr>,
                         value_range = (49, 66)\<rparr>,
       attr_range = (44, 66)\<rparr>\<close>

definition chart_attributes :: "attribute list" where
  "chart_attributes =
     [chart_data1, chart_data2]"

definition chart_element :: opening_element where
  "chart_element =
     \<lparr>el_name_range = (1, 6), el_attributes = Some chart_attributes,
      el_selfClosing = True, el_range = (0, 69)\<rparr>"

definition chart_context :: rule_context where
  "chart_context = fileContext [] chart_source"

text \<open>
  An attribute with a namespaced name among three shorthand attributes.
\<close>

definition use_source :: string where
  \<open>use_source =
     ''<use c a xlink:href="#i" b>''\<close>

definition use_c :: attribute where
  \<open>use_c =
     \<lparr>attr_type = ''JSXAttribute'', attr_name = Some (JSXIdentifier ''c''),
       attr_value = None,
       attr_range = (5, 6)\<rparr>\<close>

definition use_a :: attribute where
  \<open>use_a =
     \<lparr>attr_type = ''JSXAttribute'', attr_name = Some (JSXIdentifier ''a''),
       attr_value = None,
       attr_range = (7, 8)\<rparr>\<close>

definition use_href :: attribute where
  \<open>use_href =
     \<lparr>attr_type = ''JSXAttribute'', attr_name = Some (JSXNamespacedName ''xlink'' ''href''),
       attr_value = Some \<lparr>value_type = ''Literal'',
                         value_expression = None,
                         value_range = (20, 24)\<rparr>,
       attr_range = (9, 24)\<rparr>\<close>

definition use_b :: attribute where
  \<open>use_b =
     \<lparr>attr_type = ''JSXAttribute'', attr_name = Some (JSXIdentifier ''b''),
       attr_value = None,
       attr_range = (25, 26)\<rparr>\<close>

definition use_attributes :: "attribute list" where
  "use_attributes =
     [use_c, use_a, use_href, use_b]"

definition use_element :: opening_element where
  "use_element =
     \<lparr>el_name_range = (1, 4), el_attributes = Some use_attributes,
      el_selfClosing = False, el_range = (0, 27)\<rparr>"

definition use_context :: rule_context where
  "use_context = fileContext [] use_source"

text \<open>A configuration that gives the empty array as \<open>reactPropsList\<close>.\<close>

definition empty_list_context :: rule_context where
  "empty_list_context =
     fileContext [\<lparr>opt_reactPropsFirst = Some True, opt_reactPropsList = Some []\<rparr>]
       readme_source"

section \<open>Properties of the sort\<close>

lemma array_sort_Nil [simp]: "array_sort cmp [] = []"
  by (simp add: array_sort_def)

lemma array_sort_single [simp]: "array_sort cmp [x] = [x]"
  by (simp add: array_sort_def)

lemma mset_take_drop: "mset (take n xs) + mset (drop n xs) = mset xs"
  using append_take_drop_id [of n xs] by (metis mset_append)

lemma mset_binaryInsertionSort:
  "mset (binaryInsertionSort cmp front rest) = mset front + mset rest"
  by (induction rest arbitrary: front) (simp_all add: Let_def mset_take_drop)

lemma mset_countAndMakeRun: "mset (fst (countAndMakeRun cmp xs)) = mset xs"
  by (auto simp: countAndMakeRun_def Let_def mset_take_drop split: list.splits)

lemma mset_array_sort: "mset (array_sort cmp xs) = mset xs"
proof (cases "length xs < 2")
  case True
  then show ?thesis by (simp add: array_sort_def)
next
  case False
  obtain ys n where c: "countAndMakeRun cmp xs = (ys, n)" by (cases "countAndMakeRun cmp xs")
  then have "mset ys = mset xs" using mset_countAndMakeRun [of cmp xs] by simp
  then show ?thesis
    using False c by (simp add: array_sort_def mset_binaryInsertionSort mset_take_drop)
qed

lemma set_array_sort: "set (array_sort cmp xs) = set xs"
  using mset_array_sort [of cmp xs] by (metis set_mset_mset)

lemma length_array_sort: "length (array_sort cmp xs) = length xs"
  using mset_array_sort [of cmp xs] by (metis size_mset)

text \<open>
  Two neighbours \<open>a\<close>, \<open>b\<close> are in order when the comparison function, called on the
  later and the earlier one, does not return a negative number. A list whose neighbours
  are all in order is one run, and the sort returns it as it is.
\<close>

lemma runRest_in_order:
  "successively (\<lambda>a b. 0 \<le> cmp b a) (prev # rest) \<Longrightarrow> runRest False cmp prev rest = length rest"
  by (induction rest arbitrary: prev) (simp_all add: Let_def)

lemma array_sort_successively:
  assumes "successively (\<lambda>a b. 0 \<le> cmp b a) xs"
  shows "array_sort cmp xs = xs"
proof (cases xs)
  case Nil
  then show ?thesis by (simp add: array_sort_def)
next
  case (Cons a as)
  show ?thesis
  proof (cases as)
    case Nil
    then show ?thesis using Cons by (simp add: array_sort_def)
  next
    case (Cons b bs)
    have ab: "0 \<le> cmp b a" and tl: "successively (\<lambda>a b. 0 \<le> cmp b a) (b # bs)"
      using assms \<open>xs = a # as\<close> Cons by simp_all
    have "runRest False cmp b bs = length bs" using tl by (rule runRest_in_order)
    then have "countAndMakeRun cmp xs = (xs, length xs)"
      using ab \<open>xs = a # as\<close> Cons by (simp add: countAndMakeRun_def Let_def)
    then show ?thesis
      using \<open>xs = a # as\<close> Cons by (simp add: array_sort_def)
  qed
qed

text \<open>
  The binary search ends between an element the pivot does not compare less than and
  one it compares less than.
\<close>

lemma binarySearch_place:
  assumes "left \<le> right" and "right \<le> length xs"
    and "left = 0 \<or> 0 \<le> cmp pivot (xs ! (left - 1))"
    and "right = length xs \<or> cmp pivot (xs ! right) < 0"
  shows "binarySearch cmp pivot xs left right \<le> length xs
         \<and> (binarySearch cmp pivot xs left right = 0
             \<or> 0 \<le> cmp pivot (xs ! (binarySearch cmp pivot xs left right - 1)))
         \<and> (binarySearch cmp pivot xs left right = length xs
             \<or> cmp pivot (xs ! binarySearch cmp pivot xs left right) < 0)"
  using assms
proof (induction cmp pivot xs left right rule: binarySearch.induct)
  case (1 cmp pivot xs left right)
  show ?case
  proof (cases "left < right")
    case False
    then have "binarySearch cmp pivot xs left right = left"
      by (simp add: binarySearch.simps)
    moreover have "left = right" using False "1.prems"(1) by simp
    ultimately show ?thesis using "1.prems" by auto
  next
    case True
    define mid where "mid = left + (right - left) div 2"
    have mid: "left \<le> mid" "mid < right" using True by (simp_all add: mid_def)
    show ?thesis
    proof (cases "cmp pivot (xs ! mid) < 0")
      case lt: True
      have eq: "binarySearch cmp pivot xs left right = binarySearch cmp pivot xs left mid"
        using True lt by (subst binarySearch.simps) (simp add: mid_def Let_def)
      show ?thesis
        unfolding eq
        using "1.IH"(1) [OF True mid_def lt] mid "1.prems" lt by auto
    next
      case ge: False
      have eq: "binarySearch cmp pivot xs left right
                  = binarySearch cmp pivot xs (mid + 1) right"
        using True ge by (subst binarySearch.simps) (simp add: mid_def Let_def)
      show ?thesis
        unfolding eq
        using "1.IH"(2) [OF True mid_def ge] mid "1.prems" ge by auto
    qed
  qed
qed

lemma successively_insert_at:
  assumes s: "successively P xs" and l: "l \<le> length xs"
    and before: "l = 0 \<or> P (xs ! (l - 1)) p"
    and after: "l = length xs \<or> P p (xs ! l)"
  shows "successively P (take l xs @ p # drop l xs)"
proof -
  have td: "successively P (take l xs)" "successively P (drop l xs)"
    using s append_take_drop_id [of l xs] by (metis successively_append_iff)+
  have a: "drop l xs = [] \<or> P p (hd (drop l xs))"
  proof (cases "l = length xs")
    case True
    then show ?thesis by simp
  next
    case False
    then have "l < length xs" using l by simp
    then have "hd (drop l xs) = xs ! l" by (rule hd_drop_conv_nth)
    then show ?thesis using after False by simp
  qed
  have b: "take l xs = [] \<or> P (last (take l xs)) p"
  proof (cases "l = 0")
    case True
    then show ?thesis by simp
  next
    case False
    then have "take l xs \<noteq> []" and "length (take l xs) = l"
      using l by auto
    then have "last (take l xs) = take l xs ! (l - 1)"
      by (simp add: last_conv_nth)
    then have "last (take l xs) = xs ! (l - 1)"
      using False by simp
    then show ?thesis using before False by simp
  qed
  show ?thesis
    using td a b by (auto simp: successively_append_iff successively_Cons)
qed

text \<open>
  With a comparison function that never returns a negative number for both orders of a
  pair, the sort leaves every two neighbours in order, so sorting twice is sorting once.
\<close>

lemma successively_binaryInsertionSort:
  assumes anti: "\<And>a b. cmp a b < 0 \<Longrightarrow> 0 \<le> cmp b a"
    and "successively (\<lambda>a b. 0 \<le> cmp b a) front"
  shows "successively (\<lambda>a b. 0 \<le> cmp b a) (binaryInsertionSort cmp front rest)"
  using assms(2)
proof (induction rest arbitrary: front)
  case Nil
  then show ?case by simp
next
  case (Cons pivot rest)
  define l where "l = binarySearch cmp pivot front 0 (length front)"
  have p: "l \<le> length front \<and> (l = 0 \<or> 0 \<le> cmp pivot (front ! (l - 1)))
           \<and> (l = length front \<or> cmp pivot (front ! l) < 0)"
    unfolding l_def by (rule binarySearch_place) simp_all
  have "successively (\<lambda>a b. 0 \<le> cmp b a) (take l front @ pivot # drop l front)"
    using Cons.prems p anti by (intro successively_insert_at) auto
  then show ?case
    using Cons.IH by (simp add: Let_def l_def)
qed

lemma runRest_run:
  "successively (\<lambda>a b. if d then cmp b a < 0 else 0 \<le> cmp b a)
     (take (Suc (runRest d cmp prev rest)) (prev # rest))"
  by (induction rest arbitrary: prev) (auto simp: Let_def)

lemma countAndMakeRun_run:
  assumes anti: "\<And>a b. cmp a b < 0 \<Longrightarrow> 0 \<le> cmp b a"
    and c: "countAndMakeRun cmp xs = (ys, n)"
  shows "successively (\<lambda>a b. 0 \<le> cmp b a) (take n ys)"
proof (cases xs)
  case Nil
  then show ?thesis using c by (simp add: countAndMakeRun_def)
next
  case (Cons a as)
  show ?thesis
  proof (cases as)
    case Nil
    then show ?thesis using c Cons by (auto simp: countAndMakeRun_def)
  next
    case (Cons b bs)
    define d where "d = (cmp b a < 0)"
    define k where "k = runRest d cmp b bs"
    have xs: "xs = a # b # bs" using \<open>xs = a # as\<close> Cons by simp
    have n: "n = 2 + k" and ys: "ys = (if d then rev (take n xs) @ drop n xs else xs)"
      using c xs by (auto simp: countAndMakeRun_def Let_def d_def k_def)
    have run: "successively (\<lambda>a b. if d then cmp b a < 0 else 0 \<le> cmp b a) (take n xs)"
      using runRest_run [of d cmp b bs] unfolding n k_def xs
      by (cases "take (Suc (runRest d cmp b bs)) (b # bs)") (auto simp: d_def)
    show ?thesis
    proof (cases d)
      case False
      then show ?thesis using run ys by simp
    next
      case True
      have "successively (\<lambda>a b. cmp b a < 0) (take n xs)"
        using run True by simp
      then have "successively (\<lambda>a b. 0 \<le> cmp a b) (take n xs)"
        by (rule successively_mono) (rule anti)
      then have "successively (\<lambda>a b. 0 \<le> cmp b a) (rev (take n xs))"
        by (simp add: successively_rev)
      moreover have "take n ys = rev (take n xs)"
        using ys True by (auto simp: min_def)
      ultimately show ?thesis by simp
    qed
  qed
qed

lemma successively_array_sort:
  assumes anti: "\<And>a b. cmp a b < 0 \<Longrightarrow> 0 \<le> cmp b a"
  shows "successively (\<lambda>a b. 0 \<le> cmp b a) (array_sort cmp xs)"
proof (cases "length xs < 2")
  case True
  then have "xs = [] \<or> (\<exists>x. xs = [x])"
    by (cases xs) (auto simp: length_Suc_conv)
  then show ?thesis using True by (auto simp: array_sort_def)
next
  case False
  obtain ys n where c: "countAndMakeRun cmp xs = (ys, n)" by (cases "countAndMakeRun cmp xs")
  have "successively (\<lambda>a b. 0 \<le> cmp b a) (take n ys)"
    using anti c by (rule countAndMakeRun_run)
  with anti have "successively (\<lambda>a b. 0 \<le> cmp b a)
               (binaryInsertionSort cmp (take n ys) (drop n ys))"
    by (rule successively_binaryInsertionSort)
  then show ?thesis using False c by (simp add: array_sort_def)
qed

lemma array_sort_idem:
  assumes "\<And>a b. cmp a b < 0 \<Longrightarrow> 0 \<le> cmp b a"
  shows "array_sort cmp (array_sort cmp xs) = array_sort cmp xs"
  by (rule array_sort_successively) (rule successively_array_sort [OF assms])

lemma codeUnitCompare_antisym: "codeUnitCompare a b < 0 \<Longrightarrow> 0 \<le> codeUnitCompare b a"
  by (induction a b rule: codeUnitCompare.induct)
    (auto split: if_splits simp: not_less le_less)

section \<open>Properties of the comparison function\<close>

lemma compareLines_antisym: "compareLines ctx b a = - compareLines ctx a b"
  by (simp add: compareLines_def split: option.splits)

lemma compareProps_UNKNOWN:
  "getPropCategory ctx a = UNKNOWN \<or> getPropCategory ctx b = UNKNOWN
     \<Longrightarrow> compareProps ctx a b = 0"
  by (auto simp: compareProps_def Let_def)

lemma compareProps_antisym:
  assumes lc: "\<And>a b. localeCompare ctx a b < 0 \<Longrightarrow> 0 \<le> localeCompare ctx b a"
    and pos: "compareProps ctx a b < 0"
  shows "0 \<le> compareProps ctx b a"
proof (cases "getPropCategory ctx a = getPropCategory ctx b")
  case False
  with pos show ?thesis
    by (auto simp: compareProps_def Let_def split: if_splits)
next
  case True
  show ?thesis
  proof (cases "propName a")
    case None
    with pos True show ?thesis by (simp add: compareProps_def Let_def split: if_splits)
  next
    case na: (Some nameA)
    show ?thesis
    proof (cases "propName b")
      case None
      with pos na True show ?thesis
        by (simp add: compareProps_def Let_def split: if_splits)
    next
      case nb: (Some nameB)
      show ?thesis
        using pos True na nb lc [of nameA nameB] compareLines_antisym [of ctx b a]
        by (auto simp: compareProps_def Let_def split: if_splits)
    qed
  qed
qed

section \<open>Properties of the two loops\<close>

lemma sortLoop_result: "sortLoop ctx xs cur res = res @ sortLoop ctx xs cur []"
proof (induction xs arbitrary: cur res)
  case Nil
  show ?case by simp
next
  case (Cons a xs)
  show ?case
  proof (cases "isSpread a")
    case True
    show ?thesis
      using True Cons.IH [of "[]" "res @ array_sort (compareProps ctx) cur @ [a]"]
        Cons.IH [of "[]" "array_sort (compareProps ctx) cur @ [a]"]
        Cons.IH [of "[]" "res @ [a]"] Cons.IH [of "[]" "[a]"]
      by (cases "cur = []") simp_all
  next
    case False
    then show ?thesis using Cons.IH [of "cur @ [a]" res] by simp
  qed
qed

lemma sortLoop_no_spread:
  "\<not> list_ex isSpread xs \<Longrightarrow>
     sortLoop ctx xs cur res = res @ array_sort (compareProps ctx) (cur @ xs)"
  by (induction xs arbitrary: cur res) (simp_all add: list_ex_iff)

lemma sortLoop_split:
  assumes "isSpread s"
  shows "sortLoop ctx (pre @ s # post) cur res
           = sortLoop ctx pre cur res @ s # sortLoop ctx post [] []"
proof (induction pre arbitrary: cur res)
  case Nil
  show ?case
    using assms
      sortLoop_result [of ctx post "[]" "res @ array_sort (compareProps ctx) cur @ [s]"]
      sortLoop_result [of ctx post "[]" "res @ [s]"]
    by simp
next
  case (Cons a pre)
  then show ?case by simp
qed

lemma sortAttributes_loop:
  "sortAttributesPreservingSpreadPrecedence ctx xs = sortLoop ctx xs [] []"
proof (cases xs)
  case Nil
  then show ?thesis by (simp add: sortAttributesPreservingSpreadPrecedence_def)
next
  case (Cons a as)
  then show ?thesis
    by (cases as) (simp_all add: sortAttributesPreservingSpreadPrecedence_def)
qed

lemma mset_sortLoop:
  "mset (sortLoop ctx xs cur res) = mset res + mset cur + mset xs"
  by (induction xs arbitrary: cur res) (simp_all add: mset_array_sort)

lemma mset_sortAttributes:
  "mset (sortAttributesPreservingSpreadPrecedence ctx xs) = mset xs"
  by (simp add: sortAttributes_loop mset_sortLoop)

lemma length_sortAttributes:
  "length (sortAttributesPreservingSpreadPrecedence ctx xs) = length xs"
  using mset_sortAttributes [of ctx xs] by (metis size_mset)

lemma set_sortAttributes:
  "set (sortAttributesPreservingSpreadPrecedence ctx xs) = set xs"
  using mset_sortAttributes [of ctx xs] by (metis set_mset_mset)

lemma sortAttributes_split:
  "isSpread s \<Longrightarrow>
     sortAttributesPreservingSpreadPrecedence ctx (pre @ s # post)
       = sortAttributesPreservingSpreadPrecedence ctx pre
           @ s # sortAttributesPreservingSpreadPrecedence ctx post"
  by (simp add: sortAttributes_loop sortLoop_split)

lemma sortAttributes_no_spread:
  "\<not> list_ex isSpread xs \<Longrightarrow>
     sortAttributesPreservingSpreadPrecedence ctx xs = array_sort (compareProps ctx) xs"
  by (simp add: sortAttributes_loop sortLoop_no_spread)

text \<open>The spread attributes of the result are those of the input, at the same places.\<close>

lemma map_isSpread_sortAttributes:
  "map isSpread (sortAttributesPreservingSpreadPrecedence ctx xs) = map isSpread xs"
proof (induction "length xs" arbitrary: xs rule: less_induct)
  case less
  show ?case
  proof (cases "list_ex isSpread xs")
    case False
    then have "\<forall>x\<in>set (array_sort (compareProps ctx) xs). \<not> isSpread x"
      and "\<forall>x\<in>set xs. \<not> isSpread x"
      by (simp_all add: list_ex_iff set_array_sort)
    then have "map isSpread (array_sort (compareProps ctx) xs)
                 = replicate (length (array_sort (compareProps ctx) xs)) False"
      and "map isSpread xs = replicate (length xs) False"
      by (simp_all add: map_replicate_const [symmetric] del: map_replicate_const cong: map_cong)
    then show ?thesis
      using False by (simp add: sortAttributes_no_spread length_array_sort)
  next
    case True
    then obtain pre s post where xs: "xs = pre @ s # post" and s: "isSpread s"
      unfolding list_ex_iff by (metis split_list)
    have "length pre < length xs" and "length post < length xs"
      using xs by simp_all
    then show ?thesis
      using less [of pre] less [of post] s by (simp add: xs sortAttributes_split)
  qed
qed

lemma sortAttributes_spread_at:
  assumes "i < length xs" and "isSpread (xs ! i)"
  shows "sortAttributesPreservingSpreadPrecedence ctx xs
           = sortAttributesPreservingSpreadPrecedence ctx (take i xs)
               @ xs ! i # sortAttributesPreservingSpreadPrecedence ctx (drop (Suc i) xs)"
  using sortAttributes_split [OF assms(2), of ctx "take i xs" "drop (Suc i) xs"]
    id_take_nth_drop [OF assms(1)]
  by simp

lemma filter_same_places:
  "length xs = length ys \<Longrightarrow> map P xs = map P ys \<Longrightarrow>
     (\<And>i. i < length xs \<Longrightarrow> P (xs ! i) \<Longrightarrow> ys ! i = xs ! i) \<Longrightarrow> filter P ys = filter P xs"
proof (induction xs ys rule: list_induct2)
  case Nil
  then show ?case by simp
next
  case (Cons x xs y ys)
  have "filter P ys = filter P xs"
  proof (rule Cons.IH)
    show "map P xs = map P ys" using Cons.prems(1) by simp
    show "ys ! i = xs ! i" if "i < length xs" "P (xs ! i)" for i
      using Cons.prems(2) [of "Suc i"] that by simp
  qed
  moreover have "P x = P y" using Cons.prems(1) by simp
  moreover have "P x \<Longrightarrow> y = x" using Cons.prems(2) [of 0] by simp
  ultimately show ?case by auto
qed

lemma sortAttributes_idem:
  assumes lc: "\<And>a b. localeCompare ctx a b < 0 \<Longrightarrow> 0 \<le> localeCompare ctx b a"
  shows "sortAttributesPreservingSpreadPrecedence ctx
           (sortAttributesPreservingSpreadPrecedence ctx xs)
         = sortAttributesPreservingSpreadPrecedence ctx xs"
proof (induction "length xs" arbitrary: xs rule: less_induct)
  case less
  show ?case
  proof (cases "list_ex isSpread xs")
    case False
    then have "\<not> list_ex isSpread (array_sort (compareProps ctx) xs)"
      by (simp add: list_ex_iff set_array_sort)
    then have "sortAttributesPreservingSpreadPrecedence ctx (array_sort (compareProps ctx) xs)
                 = array_sort (compareProps ctx) (array_sort (compareProps ctx) xs)"
      by (rule sortAttributes_no_spread)
    also have "\<dots> = array_sort (compareProps ctx) xs"
      by (rule array_sort_idem) (rule compareProps_antisym [OF lc])
    finally show ?thesis
      using False by (simp add: sortAttributes_no_spread)
  next
    case True
    then obtain pre s post where xs: "xs = pre @ s # post" and s: "isSpread s"
      unfolding list_ex_iff by (metis split_list)
    have "length pre < length xs" and "length post < length xs"
      using xs by simp_all
    then show ?thesis
      using less [of pre] less [of post] s by (simp add: xs sortAttributes_split)
  qed
qed

lemma groupLoop_groups: "groupLoop xs cur groups = groups @ groupLoop xs cur []"
proof (induction xs arbitrary: cur groups)
  case Nil
  show ?case by simp
next
  case (Cons a xs)
  show ?case
    using Cons.IH [of "[]" "groups @ [cur @ [a]]"] Cons.IH [of "[]" "[cur @ [a]]"]
      Cons.IH [of "cur @ [a]" groups]
    by (simp add: Let_def)
qed

lemma groupLoop_step:
  "groupLoop (a # rest) cur [] =
     (if isSpread a \<or> rest = [] then (cur @ [a]) # groupLoop rest [] []
      else groupLoop rest (cur @ [a]) [])"
  using groupLoop_groups [of rest "[]" "[cur @ [a]]"] by (simp add: Let_def)

lemma concat_groupLoop:
  "concat (groupLoop xs cur []) = (if xs = [] then [] else cur @ xs)"
proof (induction xs arbitrary: cur)
  case Nil
  show ?case by simp
next
  case (Cons a xs)
  show ?case
    using Cons.IH [of "[]"] Cons.IH [of "cur @ [a]"]
    by (simp only: groupLoop_step) (auto split: if_splits)
qed

lemma groupLoop_members:
  assumes "\<not> list_ex isSpread cur" and "g \<in> set (groupLoop xs cur [])"
  shows "g \<noteq> [] \<and> \<not> list_ex isSpread (butlast g)"
  using assms
proof (induction xs arbitrary: cur)
  case Nil
  then show ?case by simp
next
  case (Cons a xs)
  show ?case
  proof (cases "isSpread a \<or> xs = []")
    case True
    then have "g = cur @ [a] \<or> g \<in> set (groupLoop xs [] [])"
      using Cons.prems(2) by (simp only: groupLoop_step) (simp split: if_splits)
    then show ?thesis
    proof
      assume "g = cur @ [a]"
      then show ?thesis using Cons.prems(1) by simp
    next
      assume "g \<in> set (groupLoop xs [] [])"
      then show ?thesis using Cons.IH [of "[]"] by simp
    qed
  next
    case False
    then have "g \<in> set (groupLoop xs (cur @ [a]) [])"
      using Cons.prems(2) by (simp only: groupLoop_step) (simp split: if_splits)
    moreover have "\<not> list_ex isSpread (cur @ [a])"
      using False Cons.prems(1) by simp
    ultimately show ?thesis using Cons.IH [of "cur @ [a]"] by simp
  qed
qed

lemma groupLoop_closed:
  assumes "g \<in> set (butlast (groupLoop xs cur []))"
  shows "isSpread (last g)"
  using assms
proof (induction xs arbitrary: cur)
  case Nil
  then show ?case by simp
next
  case (Cons a xs)
  show ?case
  proof (cases "isSpread a \<or> xs = []")
    case True
    note closes = True
    show ?thesis
    proof (cases "groupLoop xs [] [] = []")
      case True
      then show ?thesis using Cons.prems closes unfolding groupLoop_step by simp
    next
      case False
      then have "xs \<noteq> []" by auto
      then have a: "isSpread a" using closes by simp
      have "g = cur @ [a] \<or> g \<in> set (butlast (groupLoop xs [] []))"
        using Cons.prems closes False unfolding groupLoop_step by auto
      then show ?thesis
      proof
        assume "g = cur @ [a]"
        then show ?thesis using a by simp
      next
        assume "g \<in> set (butlast (groupLoop xs [] []))"
        then show ?thesis by (rule Cons.IH)
      qed
    qed
  next
    case False
    then have "g \<in> set (butlast (groupLoop xs (cur @ [a]) []))"
      using Cons.prems unfolding groupLoop_step by simp
    then show ?thesis by (rule Cons.IH)
  qed
qed

section \<open>Properties of the handler\<close>

lemma equivalentLoop_refl: "equivalentLoop xs xs"
  by (induction xs) simp_all

lemma equivalentLoop_eq: "length xs = length ys \<Longrightarrow> equivalentLoop xs ys \<Longrightarrow> xs = ys"
  by (induction xs ys rule: list_induct2) (auto split: if_splits)

lemma areAttributesEquivalent_iff: "areAttributesEquivalent xs ys \<longleftrightarrow> xs = ys"
  using equivalentLoop_eq [of xs ys] equivalentLoop_refl [of xs]
  by (auto simp: areAttributesEquivalent_def)

lemma allPreserved_iff:
  "allPreserved xs ys \<longleftrightarrow> length xs = length ys \<and> set xs \<subseteq> set ys"
  by (auto simp: allPreserved_def list_all_iff)

lemma createFix_Some:
  assumes "createFix ctx node attributes sortedAttributes = Some txt"
  shows "length sortedAttributes = length attributes \<and> set sortedAttributes \<subseteq> set attributes"
  using assms by (auto simp: createFix_def list_all_iff split: if_splits)

text \<open>The text of the fix, when there is one.\<close>

lemma createFix_text:
  assumes "createFix ctx node attributes sortedAttributes = Some txt"
  shows "\<exists>tagName nodeText.
           getText ctx (el_name_range node) = Some tagName
           \<and> getText ctx (el_range node) = Some nodeText
           \<and> txt = ''<'' @ tagName @ [newline] @ takeWhile is_space nodeText @ ''  ''
                   @ join ([newline] @ takeWhile is_space nodeText @ ''  '')
                       (map (attributeText ctx) sortedAttributes)
                   @ (if el_selfClosing node then '' />'' else ''>'')"
  using assms by (auto simp: createFix_def Let_def split: if_splits option.splits)

text \<open>
  When the text of the element starts with a character that is not white space, as the
  text of an opening element does, every attribute of the fix is indented by two spaces.
\<close>

lemma createFix_indent_at_tag:
  assumes "createFix ctx node attributes sortedAttributes = Some txt"
    and "getText ctx (el_range node) = Some (c # rest)" and "\<not> is_space c"
  shows "\<exists>tagName.
           getText ctx (el_name_range node) = Some tagName
           \<and> txt = ''<'' @ tagName @ [newline] @ ''  ''
                   @ join ([newline] @ ''  '') (map (attributeText ctx) sortedAttributes)
                   @ (if el_selfClosing node then '' />'' else ''>'')"
  using createFix_text [OF assms(1)] assms(2,3) by auto

text \<open>
  A list as long as a list of distinct elements, and holding each of them, is a
  permutation of it.
\<close>

lemma distinct_same_length_mset:
  assumes "distinct xs" and "length ys = length xs" and "set xs \<subseteq> set ys"
  shows "mset ys = mset xs"
proof -
  have "card (set xs) = length xs" using assms(1) by (rule distinct_card)
  moreover have "card (set xs) \<le> card (set ys)" using assms(3) by (simp add: card_mono)
  moreover have "card (set ys) \<le> length ys" by (rule card_length)
  ultimately have c: "card (set ys) = length ys" and "card (set xs) = card (set ys)"
    using assms(2) by simp_all
  then have "set xs = set ys" using assms(3) by (simp add: card_subset_eq)
  moreover have "distinct ys" using c by (rule card_distinct)
  ultimately show ?thesis using assms(1) by (simp add: set_eq_iff_mset_eq_distinct)
qed

section \<open>The README's example with the schema's defaults\<close>

text \<open>
  With the options object that the defaults of \<open>meta.schema\<close> give, whose priority list
  is \<open>key\<close>, \<open>ref\<close>, \<open>dangerouslySetInnerHTML\<close>, the attribute \<open>className\<close> is a
  \<open>STRING\<close> and the example is sorted in the order the README shows.
\<close>

lemma readme_order_with_schema_defaults:
  "sortAttributesPreservingSpreadPrecedence
       \<lparr>options = [schema_defaults], getText = sliceText readme_source, localeCompare = lc\<rparr>
       readme_attributes
     = [readme_key, readme_asChild, readme_size, readme_className, readme_buttonText,
        readme_user, readme_onClick, readme_onBlur]
   \<and> map (getPropCategory
            \<lparr>options = [schema_defaults], getText = sliceText readme_source,
               localeCompare = lc\<rparr>)
       [readme_key, readme_asChild, readme_size, readme_className, readme_buttonText,
        readme_user, readme_onClick, readme_onBlur]
     = [REACT_RESERVED, SHORTHAND, STRING, STRING, STRING, VARIABLE, FUNCTION,
        MULTILINE_FUNCTION]"
  by code_simp

section \<open>The claims\<close>

subsection \<open>C1: a fix permutes the attributes\<close>

text \<open>
  C1. When the handler reports an element with a fix that replaces text, the text is
  that of \<open>createFix\<close> on the element's attributes and their sorted list, and the sorted
  list is a permutation of the attributes: it has their length, each of its members
  is one of them, and it has the same members with the same multiplicities. The two
  checks hold for any candidate list: a fix is offered and replaces text only for a
  candidate of the original's length, whose members are all original and which holds
  every original attribute (a permutation when the original attributes are distinct
  nodes); when the handler's check fails the element is reported without a fix; when
  the check of \<open>createFix\<close> fails no text is replaced.
\<close>

theorem C1_fix_is_permutation:
  "(JSXOpeningElement ctx node = Some (ReportWithFix m (Some txt)) \<longrightarrow>
      (\<exists>attributes.
         el_attributes node = Some attributes
         \<and> createFix ctx node attributes
             (sortAttributesPreservingSpreadPrecedence ctx attributes) = Some txt
         \<and> length (sortAttributesPreservingSpreadPrecedence ctx attributes) = length attributes
         \<and> set (sortAttributesPreservingSpreadPrecedence ctx attributes) \<subseteq> set attributes
         \<and> mset (sortAttributesPreservingSpreadPrecedence ctx attributes) = mset attributes))
   \<and> (reportUnlessSorted ctx node original candidate = Some (ReportWithFix m (Some txt)) \<longrightarrow>
        createFix ctx node original candidate = Some txt
        \<and> length candidate = length original
        \<and> set candidate \<subseteq> set original \<and> set original \<subseteq> set candidate
        \<and> (distinct original \<longrightarrow> mset candidate = mset original))
   \<and> (\<not> allPreserved original candidate \<longrightarrow>
        reportUnlessSorted ctx node original candidate = Some (ReportWithoutFix message_nofix))
   \<and> (length candidate \<noteq> length original \<or> \<not> set candidate \<subseteq> set original \<longrightarrow>
        createFix ctx node original candidate = None)"
proof -
  have handler: "JSXOpeningElement ctx node = Some (ReportWithFix m (Some txt)) \<longrightarrow>
      (\<exists>attributes.
         el_attributes node = Some attributes
         \<and> createFix ctx node attributes
             (sortAttributesPreservingSpreadPrecedence ctx attributes) = Some txt
         \<and> length (sortAttributesPreservingSpreadPrecedence ctx attributes) = length attributes
         \<and> set (sortAttributesPreservingSpreadPrecedence ctx attributes) \<subseteq> set attributes
         \<and> mset (sortAttributesPreservingSpreadPrecedence ctx attributes) = mset attributes)"
  proof
    assume "JSXOpeningElement ctx node = Some (ReportWithFix m (Some txt))"
    then obtain attributes where a: "el_attributes node = Some attributes"
      and "reportUnlessSorted ctx node attributes
             (sortAttributesPreservingSpreadPrecedence ctx attributes)
           = Some (ReportWithFix m (Some txt))"
      by (auto simp: JSXOpeningElement_def split: option.splits if_splits)
    then have "createFix ctx node attributes
                 (sortAttributesPreservingSpreadPrecedence ctx attributes) = Some txt"
      by (simp add: reportUnlessSorted_def split: if_splits)
    with a show "\<exists>attributes.
           el_attributes node = Some attributes
           \<and> createFix ctx node attributes
               (sortAttributesPreservingSpreadPrecedence ctx attributes) = Some txt
           \<and> length (sortAttributesPreservingSpreadPrecedence ctx attributes)
               = length attributes
           \<and> set (sortAttributesPreservingSpreadPrecedence ctx attributes) \<subseteq> set attributes
           \<and> mset (sortAttributesPreservingSpreadPrecedence ctx attributes) = mset attributes"
      by (simp add: length_sortAttributes set_sortAttributes mset_sortAttributes)
  qed
  have offered: "reportUnlessSorted ctx node original candidate
                   = Some (ReportWithFix m (Some txt)) \<longrightarrow>
        createFix ctx node original candidate = Some txt
        \<and> length candidate = length original
        \<and> set candidate \<subseteq> set original \<and> set original \<subseteq> set candidate
        \<and> (distinct original \<longrightarrow> mset candidate = mset original)"
  proof
    assume "reportUnlessSorted ctx node original candidate
              = Some (ReportWithFix m (Some txt))"
    then have f: "createFix ctx node original candidate = Some txt"
      and p: "allPreserved original candidate"
      by (simp_all add: reportUnlessSorted_def split: if_splits)
    have l: "length candidate = length original" and sub: "set original \<subseteq> set candidate"
      using p by (simp_all add: allPreserved_iff)
    have "mset candidate = mset original" if "distinct original"
      using that l sub by (rule distinct_same_length_mset)
    then show "createFix ctx node original candidate = Some txt
          \<and> length candidate = length original
          \<and> set candidate \<subseteq> set original \<and> set original \<subseteq> set candidate
          \<and> (distinct original \<longrightarrow> mset candidate = mset original)"
      using f l sub createFix_Some [OF f] by simp
  qed
  have unsafe: "\<not> allPreserved original candidate \<longrightarrow>
        reportUnlessSorted ctx node original candidate = Some (ReportWithoutFix message_nofix)"
  proof
    assume n: "\<not> allPreserved original candidate"
    then have "original \<noteq> candidate"
      by (auto simp: allPreserved_iff)
    then show "reportUnlessSorted ctx node original candidate
                 = Some (ReportWithoutFix message_nofix)"
      using n by (simp add: reportUnlessSorted_def areAttributesEquivalent_iff)
  qed
  have declined: "length candidate \<noteq> length original \<or> \<not> set candidate \<subseteq> set original \<longrightarrow>
        createFix ctx node original candidate = None"
    by (auto simp: createFix_def list_all_iff)
  show ?thesis
    by (intro conjI handler offered unsafe declined)
qed

theorem C1_fix_is_permutation_witness:
  "JSXOpeningElement foo_context foo_element = Some (ReportWithFix message_fix (Some foo_fixed))
   \<and> el_attributes foo_element = Some foo_attributes
   \<and> mset (sortAttributesPreservingSpreadPrecedence foo_context foo_attributes)
       = mset foo_attributes
   \<and> \<not> allPreserved [foo_b, foo_a] [foo_a]
   \<and> reportUnlessSorted foo_context foo_element [foo_b, foo_a] [foo_a]
       = Some (ReportWithoutFix message_nofix)
   \<and> createFix foo_context foo_element [foo_b, foo_a] [foo_a] = None
   \<and> reportUnlessSorted foo_context foo_element [foo_b, foo_a] [foo_a, foo_b]
       = Some (ReportWithFix message_fix
           (createFix foo_context foo_element [foo_b, foo_a] [foo_a, foo_b]))
   \<and> createFix foo_context foo_element [foo_b, foo_a] [foo_a, foo_b] \<noteq> None"
proof -
  have r: "JSXOpeningElement foo_context foo_element
             = Some (ReportWithFix message_fix (Some foo_fixed))"
    by code_simp
  have e: "el_attributes foo_element = Some foo_attributes"
    by (simp add: foo_element_def)
  have n: "\<not> allPreserved [foo_b, foo_a] [foo_a]"
    by code_simp
  have l: "length [foo_a] \<noteq> length [foo_b, foo_a]"
    by simp
  have k: "reportUnlessSorted foo_context foo_element [foo_b, foo_a] [foo_a, foo_b]
       = Some (ReportWithFix message_fix
           (createFix foo_context foo_element [foo_b, foo_a] [foo_a, foo_b]))"
    "createFix foo_context foo_element [foo_b, foo_a] [foo_a, foo_b] \<noteq> None"
    by code_simp+
  have "mset (sortAttributesPreservingSpreadPrecedence foo_context foo_attributes)
       = mset foo_attributes"
    using C1_fix_is_permutation [of foo_context foo_element message_fix foo_fixed] r e
    by auto
  moreover have "reportUnlessSorted foo_context foo_element [foo_b, foo_a] [foo_a]
       = Some (ReportWithoutFix message_nofix)"
    "createFix foo_context foo_element [foo_b, foo_a] [foo_a] = None"
    using C1_fix_is_permutation
            [of foo_context foo_element message_fix foo_fixed "[foo_b, foo_a]" "[foo_a]"] n l
    by blast+
  ultimately show ?thesis using r e n k by (intro conjI) blast+
qed

subsection \<open>C2: spread attributes stay in place\<close>

text \<open>
  C2. The result of \<open>sortAttributesPreservingSpreadPrecedence\<close> has the length of the
  input, has spread attributes at the places where the input has them and nowhere
  else, and the same spread attributes in the same order. At every place \<open>i\<close> of a spread
  attribute the result holds the input's attribute, and the \<open>i\<close> attributes before it
  are a permutation of the \<open>i\<close> attributes before it in the input; the whole result
  is a permutation of the input. So only the attributes between two consecutive spread
  attributes, or between one and an end of the list, are permuted, among themselves.
\<close>

theorem C2_spreads_stay:
  "length (sortAttributesPreservingSpreadPrecedence ctx attributes) = length attributes
   \<and> map isSpread (sortAttributesPreservingSpreadPrecedence ctx attributes)
       = map isSpread attributes
   \<and> filter isSpread (sortAttributesPreservingSpreadPrecedence ctx attributes)
       = filter isSpread attributes
   \<and> mset (sortAttributesPreservingSpreadPrecedence ctx attributes) = mset attributes
   \<and> (\<forall>i < length attributes. isSpread (attributes ! i) \<longrightarrow>
         sortAttributesPreservingSpreadPrecedence ctx attributes ! i = attributes ! i
         \<and> mset (take i (sortAttributesPreservingSpreadPrecedence ctx attributes))
             = mset (take i attributes))"
proof -
  have at: "sortAttributesPreservingSpreadPrecedence ctx attributes ! i = attributes ! i
         \<and> mset (take i (sortAttributesPreservingSpreadPrecedence ctx attributes))
             = mset (take i attributes)"
    if i: "i < length attributes" and s: "isSpread (attributes ! i)" for i
  proof -
    have len: "length (sortAttributesPreservingSpreadPrecedence ctx (take i attributes)) = i"
      using i by (simp add: length_sortAttributes)
    have eq: "sortAttributesPreservingSpreadPrecedence ctx attributes
           = sortAttributesPreservingSpreadPrecedence ctx (take i attributes)
               @ attributes ! i
                 # sortAttributesPreservingSpreadPrecedence ctx (drop (Suc i) attributes)"
      by (rule sortAttributes_spread_at [OF i s])
    have "sortAttributesPreservingSpreadPrecedence ctx attributes ! i = attributes ! i"
      by (subst eq) (simp add: nth_append len)
    moreover have "take i (sortAttributesPreservingSpreadPrecedence ctx attributes)
                     = sortAttributesPreservingSpreadPrecedence ctx (take i attributes)"
      by (subst eq) (simp add: len)
    ultimately show ?thesis by (simp add: mset_sortAttributes)
  qed
  have "filter isSpread (sortAttributesPreservingSpreadPrecedence ctx attributes)
          = filter isSpread attributes"
    by (rule filter_same_places)
      (simp_all add: length_sortAttributes map_isSpread_sortAttributes at)
  with at show ?thesis
    by (simp add: length_sortAttributes map_isSpread_sortAttributes mset_sortAttributes)
qed

theorem C2_spreads_stay_witness:
  "sortAttributesPreservingSpreadPrecedence foo_context foo_attributes
     = [foo_a, foo_b, foo_rest, foo_c, foo_d]
   \<and> foo_attributes = [foo_b, foo_a, foo_rest, foo_d, foo_c]
   \<and> isSpread (foo_attributes ! 2)
   \<and> sortAttributesPreservingSpreadPrecedence foo_context foo_attributes ! 2
       = foo_attributes ! 2
   \<and> mset (take 2 (sortAttributesPreservingSpreadPrecedence foo_context foo_attributes))
       = mset (take 2 foo_attributes)"
proof -
  have s: "sortAttributesPreservingSpreadPrecedence foo_context foo_attributes
             = [foo_a, foo_b, foo_rest, foo_c, foo_d]"
    by code_simp
  have a: "foo_attributes = [foo_b, foo_a, foo_rest, foo_d, foo_c]"
    by (simp add: foo_attributes_def)
  have r: "isSpread (foo_attributes ! 2)"
    by code_simp
  have len: "2 < length foo_attributes"
    by (simp add: a)
  have k: "sortAttributesPreservingSpreadPrecedence foo_context foo_attributes ! 2
          = foo_attributes ! 2
        \<and> mset (take 2 (sortAttributesPreservingSpreadPrecedence foo_context foo_attributes))
            = mset (take 2 foo_attributes)"
    using C2_spreads_stay [of foo_context foo_attributes] len r by blast
  show ?thesis
    using s a r k by (intro conjI) blast+
qed

subsection \<open>C3: the groups of groupAttributesBySpread\<close>

text \<open>
  C3, as stated, fails: \<open>groupAttributesBySpread\<close> pushes every attribute on the current
  group before it tests whether the attribute closes the group, so a spread attribute is
  the last member of the group it closes, and no group it closes is empty. On the
  attributes \<open>b a {...rest} d c\<close> the first group holds the spread attribute; two spread
  attributes in a row give two groups of one spread attribute each.
\<close>

theorem C3_counterexample:
  "groupAttributesBySpread foo_attributes = [[foo_b, foo_a, foo_rest], [foo_d, foo_c]]
   \<and> isSpread foo_rest
   \<and> list_ex (list_ex isSpread) (groupAttributesBySpread foo_attributes)
   \<and> groupAttributesBySpread [foo_rest, foo_rest] = [[foo_rest], [foo_rest]]"
  by code_simp

text \<open>
  C3, amended. The groups that \<open>groupAttributesBySpread\<close> returns are non-empty and
  their concatenation is the attribute sequence. A spread attribute closes the current
  group and is its last member: no member of a group but the last is a spread attribute,
  and every group but the last one ends with a spread attribute.
\<close>

theorem C3_groups_end_at_spread:
  "concat (groupAttributesBySpread attributes) = attributes
   \<and> (\<forall>g \<in> set (groupAttributesBySpread attributes).
         g \<noteq> [] \<and> \<not> list_ex isSpread (butlast g))
   \<and> (\<forall>g \<in> set (butlast (groupAttributesBySpread attributes)). isSpread (last g))"
  using concat_groupLoop [of attributes "[]"]
    groupLoop_members [of "[]" _ attributes] groupLoop_closed [of _ attributes "[]"]
  by (auto simp: groupAttributesBySpread_def)

theorem C3_groups_end_at_spread_witness:
  "groupAttributesBySpread foo_attributes = [[foo_b, foo_a, foo_rest], [foo_d, foo_c]]
   \<and> concat [[foo_b, foo_a, foo_rest], [foo_d, foo_c]] = foo_attributes
   \<and> \<not> list_ex isSpread (butlast [foo_b, foo_a, foo_rest])
   \<and> \<not> list_ex isSpread (butlast [foo_d, foo_c])
   \<and> isSpread (last [foo_b, foo_a, foo_rest])"
proof -
  have g: "groupAttributesBySpread foo_attributes = [[foo_b, foo_a, foo_rest], [foo_d, foo_c]]"
    by code_simp
  show ?thesis
    using C3_groups_end_at_spread [of foo_attributes] unfolding g by simp
qed

subsection \<open>C4: sorting twice\<close>

text \<open>
  C4. With a \<open>localeCompare\<close> that never returns a negative number for both orders
  of two names, \<open>sortAttributesPreservingSpreadPrecedence\<close> returns a list it has
  produced as it is, element by element the same nodes, and the handler reports
  nothing for an element whose attributes are such a list.
\<close>

theorem C4_idempotent:
  assumes "\<forall>a b. localeCompare ctx a b < 0 \<longrightarrow> 0 \<le> localeCompare ctx b a"
  shows "sortAttributesPreservingSpreadPrecedence ctx
           (sortAttributesPreservingSpreadPrecedence ctx attributes)
         = sortAttributesPreservingSpreadPrecedence ctx attributes
       \<and> areAttributesEquivalent (sortAttributesPreservingSpreadPrecedence ctx attributes)
           (sortAttributesPreservingSpreadPrecedence ctx
              (sortAttributesPreservingSpreadPrecedence ctx attributes))
       \<and> JSXOpeningElement ctx
           (node\<lparr>el_attributes :=
                   Some (sortAttributesPreservingSpreadPrecedence ctx attributes)\<rparr>)
         = None"
proof -
  have idem: "sortAttributesPreservingSpreadPrecedence ctx
           (sortAttributesPreservingSpreadPrecedence ctx attributes)
         = sortAttributesPreservingSpreadPrecedence ctx attributes"
    by (rule sortAttributes_idem) (use assms in blast)
  then show ?thesis
    by (simp add: JSXOpeningElement_def reportUnlessSorted_def areAttributesEquivalent_iff)
qed

theorem C4_idempotent_witness:
  "sortAttributesPreservingSpreadPrecedence foo_context foo_attributes
     = [foo_a, foo_b, foo_rest, foo_c, foo_d]
   \<and> sortAttributesPreservingSpreadPrecedence foo_context [foo_a, foo_b, foo_rest, foo_c, foo_d]
       = [foo_a, foo_b, foo_rest, foo_c, foo_d]
   \<and> JSXOpeningElement foo_context foo_element \<noteq> None
   \<and> JSXOpeningElement foo_context
       (foo_element\<lparr>el_attributes := Some [foo_a, foo_b, foo_rest, foo_c, foo_d]\<rparr>) = None"
proof -
  have lc: "\<forall>a b. localeCompare foo_context a b < 0 \<longrightarrow> 0 \<le> localeCompare foo_context b a"
    by (simp add: foo_context_def fileContext_def codeUnitCompare_antisym)
  have s: "sortAttributesPreservingSpreadPrecedence foo_context foo_attributes
             = [foo_a, foo_b, foo_rest, foo_c, foo_d]"
    by code_simp
  have r: "JSXOpeningElement foo_context foo_element \<noteq> None"
    by code_simp
  show ?thesis
    using C4_idempotent [OF lc, of foo_attributes foo_element] r unfolding s by simp
qed

subsection \<open>C5: the README's example\<close>

text \<open>
  C5, as stated, fails: with no options the priority list holds \<open>className\<close>, so the
  attribute \<open>className\<close> is classified \<open>REACT_RESERVED\<close>, not \<open>STRING\<close>, and comes
  second, after \<open>key\<close>.
\<close>

theorem C5_counterexample:
  "options (fileContext [] readme_source) = []
   \<and> getPropCategory (fileContext [] readme_source) readme_className = REACT_RESERVED
   \<and> sortAttributesPreservingSpreadPrecedence (fileContext [] readme_source) readme_attributes
       = [readme_key, readme_className, readme_asChild, readme_size, readme_buttonText,
          readme_user, readme_onClick, readme_onBlur]
   \<and> sortAttributesPreservingSpreadPrecedence (fileContext [] readme_source) readme_attributes
       \<noteq> [readme_key, readme_asChild, readme_size, readme_className, readme_buttonText,
          readme_user, readme_onClick, readme_onBlur]"
  by code_simp

text \<open>
  C5, amended. With the default configuration (no options) the sorted order of the
  example is \<open>key\<close>, \<open>className\<close>, \<open>asChild\<close>, \<open>size\<close>, \<open>buttonText\<close>, \<open>user\<close>,
  \<open>onClick\<close>, \<open>onBlur\<close>, classified \<open>REACT_RESERVED\<close>, \<open>REACT_RESERVED\<close>,
  \<open>SHORTHAND\<close>, \<open>STRING\<close>, \<open>STRING\<close>, \<open>VARIABLE\<close>, \<open>FUNCTION\<close>,
  \<open>MULTILINE_FUNCTION\<close>: the two reserved names in the order of the priority list,
  the two \<open>STRING\<close> names by ascending length. This holds for every collation \<open>lc\<close>.
\<close>

theorem C5_example_order:
  "sortAttributesPreservingSpreadPrecedence
       \<lparr>options = [], getText = sliceText readme_source, localeCompare = lc\<rparr> readme_attributes
     = [readme_key, readme_className, readme_asChild, readme_size, readme_buttonText,
        readme_user, readme_onClick, readme_onBlur]
   \<and> map (getPropCategory \<lparr>options = [], getText = sliceText readme_source, localeCompare = lc\<rparr>)
       [readme_key, readme_className, readme_asChild, readme_size, readme_buttonText,
        readme_user, readme_onClick, readme_onBlur]
     = [REACT_RESERVED, REACT_RESERVED, SHORTHAND, STRING, STRING, VARIABLE, FUNCTION,
        MULTILINE_FUNCTION]"
  by code_simp

subsection \<open>C6: the tie-break of multiline objects\<close>

text \<open>
  C6, as stated, fails: for two attributes classified \<open>MULTILINE_OBJECT\<close> whose names
  have the same length, the names are compared before the line counts. In
  \<open>box_source\<close> the value of \<open>sizes\<close> has four lines and the value of \<open>theme\<close> has three,
  and \<open>sizes\<close> is ordered first.
\<close>

theorem C6_counterexample:
  "getPropCategory box_context box_sizes = MULTILINE_OBJECT
   \<and> getPropCategory box_context box_theme = MULTILINE_OBJECT
   \<and> propName box_sizes = Some ''sizes'' \<and> propName box_theme = Some ''theme''
   \<and> length ''sizes'' = length ''theme''
   \<and> lineCount box_context box_sizes = Some 4
   \<and> lineCount box_context box_theme = Some 3
   \<and> compareProps box_context box_sizes box_theme = -1
   \<and> array_sort (compareProps box_context) [box_sizes, box_theme] = [box_sizes, box_theme]"
  by code_simp

text \<open>
  C6, amended. For two attributes classified \<open>MULTILINE_OBJECT\<close> with the same name,
  \<open>compareProps\<close> returns the difference of the numbers of lines of the texts of their
  values, so they are ordered by ascending number of lines. When the names have the
  same length and differ, \<open>compareProps\<close> returns what \<open>localeCompare\<close> returns on the
  names, whatever the numbers of lines.
\<close>

theorem C6_multiline_tie_break:
  "(getPropCategory ctx a = MULTILINE_OBJECT \<and> getPropCategory ctx b = MULTILINE_OBJECT
      \<and> propName a = propName b
      \<longrightarrow> (\<exists>linesA linesB.
             lineCount ctx a = Some linesA \<and> lineCount ctx b = Some linesB
             \<and> compareProps ctx a b = linesA - linesB))
   \<and> (getPropCategory ctx a = MULTILINE_OBJECT \<and> getPropCategory ctx b = MULTILINE_OBJECT
      \<and> propName a = Some nameA \<and> propName b = Some nameB
      \<and> length nameA = length nameB \<and> nameA \<noteq> nameB
      \<longrightarrow> compareProps ctx a b = localeCompare ctx nameA nameB)"
proof -
  have mo: "\<exists>name l. propName p = Some name \<and> lineCount ctx p = Some l"
    if "getPropCategory ctx p = MULTILINE_OBJECT" for p
    using that
    by (auto simp: getPropCategory_def lineCount_def split: option.splits if_splits)
  show ?thesis
  proof (intro conjI impI)
    assume h: "getPropCategory ctx a = MULTILINE_OBJECT
                 \<and> getPropCategory ctx b = MULTILINE_OBJECT \<and> propName a = propName b"
    then have cat: "getPropCategory ctx a = MULTILINE_OBJECT"
      "getPropCategory ctx b = MULTILINE_OBJECT"
      by simp_all
    from cat mo [of a] obtain name linesA where
      a: "propName a = Some name" "lineCount ctx a = Some linesA"
      by blast
    from cat mo [of b] obtain linesB where b: "lineCount ctx b = Some linesB"
      by blast
    have pb: "propName b = Some name"
      using h a by simp
    have "compareProps ctx a b = linesA - linesB"
      using cat a b pb by (simp add: compareProps_def compareLines_def Let_def)
    with a b show "\<exists>linesA linesB.
             lineCount ctx a = Some linesA \<and> lineCount ctx b = Some linesB
             \<and> compareProps ctx a b = linesA - linesB"
      by blast
  next
    assume "getPropCategory ctx a = MULTILINE_OBJECT \<and> getPropCategory ctx b = MULTILINE_OBJECT
      \<and> propName a = Some nameA \<and> propName b = Some nameB
      \<and> length nameA = length nameB \<and> nameA \<noteq> nameB"
    then show "compareProps ctx a b = localeCompare ctx nameA nameB"
      by (simp add: compareProps_def Let_def)
  qed
qed

theorem C6_multiline_tie_break_witness:
  "getPropCategory chart_context chart_data1 = MULTILINE_OBJECT
   \<and> getPropCategory chart_context chart_data2 = MULTILINE_OBJECT
   \<and> propName chart_data1 = propName chart_data2
   \<and> lineCount chart_context chart_data1 = Some 4
   \<and> lineCount chart_context chart_data2 = Some 3
   \<and> compareProps chart_context chart_data1 chart_data2 = 4 - 3
   \<and> getPropCategory box_context box_sizes = MULTILINE_OBJECT
   \<and> getPropCategory box_context box_theme = MULTILINE_OBJECT
   \<and> compareProps box_context box_sizes box_theme
       = localeCompare box_context ''sizes'' ''theme''"
proof -
  have c: "getPropCategory chart_context chart_data1 = MULTILINE_OBJECT"
    "getPropCategory chart_context chart_data2 = MULTILINE_OBJECT"
    "propName chart_data1 = propName chart_data2"
    by code_simp+
  have l: "lineCount chart_context chart_data1 = Some 4"
    "lineCount chart_context chart_data2 = Some 3"
    by code_simp+
  have b: "getPropCategory box_context box_sizes = MULTILINE_OBJECT"
    "getPropCategory box_context box_theme = MULTILINE_OBJECT"
    "propName box_sizes = Some ''sizes''" "propName box_theme = Some ''theme''"
    by code_simp+
  have "compareProps chart_context chart_data1 chart_data2 = 4 - 3"
    using C6_multiline_tie_break [of chart_context chart_data1 chart_data2] c l
    by auto
  moreover have "compareProps box_context box_sizes box_theme
       = localeCompare box_context ''sizes'' ''theme''"
    using C6_multiline_tie_break [of box_context box_sizes box_theme "''sizes''" "''theme''"] b
    by simp
  ultimately show ?thesis using c l b by simp
qed

subsection \<open>C7: unknown attributes\<close>

text \<open>
  C7. \<open>compareProps\<close> returns 0, in both orders, for a pair with an attribute
  classified \<open>UNKNOWN\<close> (lemma \<open>compareProps_UNKNOWN\<close>), but the sort does not keep the
  two attributes in their order for that. In \<open>use_source\<close> the attributes are \<open>c\<close>, \<open>a\<close>,
  \<open>xlink:href\<close>, \<open>b\<close>, and \<open>xlink:href\<close>, whose name is a namespaced one, is classified
  \<open>UNKNOWN\<close>. The run \<open>c\<close>, \<open>a\<close> is reversed, \<open>xlink:href\<close> stays behind \<open>c\<close>, and the
  binary search for the place of \<open>b\<close> compares it with \<open>c\<close> and with \<open>a\<close> only: \<open>b\<close> goes
  in front of \<open>c\<close>, and so in front of \<open>xlink:href\<close>, which stood before it. The rule
  reports the element, with a fix in this order.
\<close>

theorem C7_unknown_is_passed:
  \<open>use_attributes = [use_c, use_a, use_href, use_b]
   \<and> getPropCategory use_context use_href = UNKNOWN
   \<and> compareProps use_context use_href use_b = 0
   \<and> compareProps use_context use_b use_href = 0
   \<and> array_sort (compareProps use_context) use_attributes
       = [use_a, use_b, use_c, use_href]
   \<and> sortAttributesPreservingSpreadPrecedence use_context use_attributes
       = [use_a, use_b, use_c, use_href]
   \<and> JSXOpeningElement use_context use_element
       = Some (ReportWithFix message_fix
           (Some (''<use'' @ [newline] @ ''  a'' @ [newline] @ ''  b'' @ [newline]
                  @ ''  c'' @ [newline] @ ''  xlink:href="#i">'')))\<close>
  by code_simp

subsection \<open>C8: the indentation of the fix\<close>

text \<open>
  C8. \<open>createFix\<close> takes the indentation from the white space at the start of
  \<open>sourceCode.getText(node)\<close>. The text of an opening element starts at its \<open><\<close>, so
  this indentation is empty wherever the element stands. In \<open>foo_source\<close> the element
  \<open>Foo\<close> is indented by four spaces (the offsets 6 to 10), and the fix indents every
  attribute by two spaces, not by the four spaces and one unit more.
\<close>

theorem C8_indentation_of_fix:
  "sliceText foo_source (6, 10) = Some ''    ''
   \<and> el_range foo_element = (10, 35)
   \<and> getText foo_context (el_range foo_element) = Some ''<Foo b a {...rest} d c />''
   \<and> JSXOpeningElement foo_context foo_element
       = Some (ReportWithFix message_fix
           (Some (''<Foo'' @ [newline] @ ''  a'' @ [newline] @ ''  b'' @ [newline]
                  @ ''  {...rest}'' @ [newline] @ ''  c'' @ [newline] @ ''  d />'')))"
  by code_simp

subsection \<open>C9: the default options\<close>

text \<open>
  C9. When the options give no \<open>reactPropsList\<close>, the priority list is the sequence of
  twelve names \<open>key\<close>, \<open>ref\<close>, \<open>dangerouslySetInnerHTML\<close>, \<open>children\<close>, \<open>value\<close>,
  \<open>defaultValue\<close>, \<open>checked\<close>, \<open>defaultChecked\<close>, \<open>className\<close>, \<open>style\<close>, \<open>id\<close>,
  \<open>name\<close>, in this order; when they give no \<open>reactPropsFirst\<close>, the reserved names are
  prioritized. Both hold when no options object is given at all, and then an attribute
  with one of the twelve names is classified \<open>REACT_RESERVED\<close>.
\<close>

theorem C9_default_options:
  "(opt_reactPropsList (options0 ctx) = None \<longrightarrow>
      reactPropsList ctx =
        [''key'', ''ref'', ''dangerouslySetInnerHTML'', ''children'', ''value'',
         ''defaultValue'', ''checked'', ''defaultChecked'', ''className'', ''style'',
         ''id'', ''name''])
   \<and> (opt_reactPropsFirst (options0 ctx) = None \<longrightarrow> shouldPrioritizeReactProps ctx)
   \<and> (options ctx = [] \<longrightarrow>
        opt_reactPropsList (options0 ctx) = None \<and> opt_reactPropsFirst (options0 ctx) = None)
   \<and> (opt_reactPropsList (options0 ctx) = None \<and> opt_reactPropsFirst (options0 ctx) = None
        \<and> propName prop = Some name
        \<and> name \<in> set [''key'', ''ref'', ''dangerouslySetInnerHTML'', ''children'', ''value'',
                       ''defaultValue'', ''checked'', ''defaultChecked'', ''className'',
                       ''style'', ''id'', ''name'']
        \<longrightarrow> getPropCategory ctx prop = REACT_RESERVED)"
  by (simp add: reactPropsList_def shouldPrioritizeReactProps_def options0_def
      getPropCategory_def)

theorem C9_default_options_witness:
  "options (fileContext [] readme_source) = []
   \<and> reactPropsList (fileContext [] readme_source) =
        [''key'', ''ref'', ''dangerouslySetInnerHTML'', ''children'', ''value'',
         ''defaultValue'', ''checked'', ''defaultChecked'', ''className'', ''style'',
         ''id'', ''name'']
   \<and> shouldPrioritizeReactProps (fileContext [] readme_source)
   \<and> propName readme_key = Some ''key''
   \<and> getPropCategory (fileContext [] readme_source) readme_key = REACT_RESERVED"
proof -
  have opts: "options (fileContext [] readme_source) = []"
    by (simp add: fileContext_def)
  have name: "propName readme_key = Some ''key''"
    by (simp add: propName_def readme_key_def)
  show ?thesis
    using C9_default_options [of "fileContext [] readme_source" readme_key "''key''"] opts name
    by simp
qed

subsection \<open>C10: an empty priority list\<close>

text \<open>
  C10. When the options give the empty array as \<open>reactPropsList\<close>, the priority list is
  that empty list, not the default one, and no attribute is classified
  \<open>REACT_RESERVED\<close>, whatever \<open>reactPropsFirst\<close> is.
\<close>

theorem C10_empty_list_used:
  assumes "opt_reactPropsList (options0 ctx) = Some []"
  shows "reactPropsList ctx = [] \<and> getPropCategory ctx prop \<noteq> REACT_RESERVED"
proof -
  have l: "reactPropsList ctx = []"
    using assms by (simp add: reactPropsList_def)
  have "getPropCategory ctx prop \<noteq> REACT_RESERVED"
    by (simp add: getPropCategory_def l categoryOfValue_def split: option.splits)
  with l show ?thesis by simp
qed

theorem C10_empty_list_used_witness:
  "opt_reactPropsList (options0 empty_list_context) = Some []
   \<and> shouldPrioritizeReactProps empty_list_context
   \<and> reactPropsList empty_list_context = []
   \<and> getPropCategory empty_list_context readme_key = STRING"
proof -
  have h: "opt_reactPropsList (options0 empty_list_context) = Some []"
    by (simp add: empty_list_context_def fileContext_def options0_def)
  have p: "shouldPrioritizeReactProps empty_list_context"
    by (simp add: empty_list_context_def fileContext_def options0_def
        shouldPrioritizeReactProps_def)
  have c: "getPropCategory empty_list_context readme_key = STRING"
    by code_simp
  show ?thesis
    using C10_empty_list_used [OF h, of readme_key] h p c by simp
qed

end
